theory Spec2Isabelle
  imports Complex_Main "HOL-Library.Sublist"
begin

section \<open>Python strings\<close>

text \<open>
  The script \<^verbatim>\<open>convert-tables.py\<close> works on Python \<^verbatim>\<open>str\<close> values. A text is a
  \<^typ>\<open>string\<close>, one \<^typ>\<open>char\<close> per code point; the 8-bit \<^typ>\<open>char\<close> covers the code
  points U+0000 to U+00FF, and the character classes below are Python's classes on
  that range. The arithmetic of Python's numbers (rounding, overflow, the
  exceptions it raises) is not fixed: it is a parameter of the functions that
  compute with numbers. The calls of \<^verbatim>\<open>print\<close> only log and are left out, but for
  the sum that the last one in \<^verbatim>\<open>getColumnSizes\<close> evaluates.
\<close>

abbreviation bs :: char where "bs \<equiv> CHR 0x5C"
abbreviation nl :: char where "nl \<equiv> CHR 0x0A"

datatype error =
    ValueError string
  | AssertionError
  | ZeroDivisionError
  | OverflowError
  | TemplateError
  | ExternalError string

text \<open>\<^verbatim>\<open>str.isspace\<close> and the decimal digits, for one character below U+0100.\<close>

definition py_isspace :: "char \<Rightarrow> bool" where
  "py_isspace c =
     (let n = (of_char c :: nat)
      in (9 \<le> n \<and> n \<le> 13) \<or> (28 \<le> n \<and> n \<le> 32) \<or> n = 133 \<or> n = 160)"

definition py_isdigit :: "char \<Rightarrow> bool" where
  "py_isdigit c = (let n = (of_char c :: nat) in 48 \<le> n \<and> n \<le> 57)"

text \<open>\<^verbatim>\<open>s.find(w)\<close>: the index of the first occurrence of \<open>w\<close> in \<open>s\<close>, or \<open>-1\<close>.\<close>

fun find_str :: "string \<Rightarrow> string \<Rightarrow> nat option" where
  "find_str w [] = (if w = [] then Some 0 else None)"
| "find_str w (c # cs) =
     (if prefix w (c # cs) then Some 0 else map_option Suc (find_str w cs))"

definition py_find :: "string \<Rightarrow> string \<Rightarrow> int" where
  "py_find s w = (case find_str w s of None \<Rightarrow> - 1 | Some i \<Rightarrow> int i)"

text \<open>
  \<^verbatim>\<open>s[a:b]\<close> for integers \<open>a\<close> and \<open>b\<close>: a negative index counts from the end, and
  both indices are clipped to the text.
\<close>

definition py_index :: "string \<Rightarrow> int \<Rightarrow> nat" where
  "py_index s i =
     (let n = int (length s); j = (if i < 0 then i + n else i)
      in if j < 0 then 0 else if n < j then length s else nat j)"

definition py_slice :: "string \<Rightarrow> int \<Rightarrow> int \<Rightarrow> string" where
  "py_slice s a b = take (py_index s b - py_index s a) (drop (py_index s a) s)"

definition py_slice_from :: "string \<Rightarrow> int \<Rightarrow> string" where
  "py_slice_from s a = drop (py_index s a) s"

text \<open>The value of a text of decimal digits.\<close>

definition digit_val :: "char \<Rightarrow> nat" where
  "digit_val c = of_char c - 48"

definition digits_val :: "string \<Rightarrow> nat" where
  "digits_val ds = foldl (\<lambda>n c. 10 * n + digit_val c) 0 ds"

section \<open>Regular expressions of Python's \<^verbatim>\<open>re\<close>\<close>

text \<open>
  The patterns of the script use literals, the classes \<^verbatim>\<open>.\<close>, \<^verbatim>\<open>\d\<close> and \<^verbatim>\<open>\s\<close>,
  the line anchor \<^verbatim>\<open>^\<close> under \<^verbatim>\<open>re.MULTILINE\<close>, greedy and lazy repetition,
  the option \<^verbatim>\<open>?\<close> and capturing groups. \<open>One P\<close> matches one character of the
  class \<open>P\<close>.
\<close>

datatype re =
    One "char \<Rightarrow> bool"
  | Bol
  | Eps
  | Seq re re
  | Star re
  | LazyStar re
  | Opt re
  | Group nat re

definition Chr :: "char \<Rightarrow> re" where "Chr c = One (\<lambda>x. x = c)"
definition Dot :: re where "Dot = One (\<lambda>x. x \<noteq> nl)"
definition DotAll :: re where "DotAll = One (\<lambda>x. True)"
definition Digit :: re where "Digit = One py_isdigit"
definition Space :: re where "Space = One py_isspace"
definition Plus :: "re \<Rightarrow> re" where "Plus a = Seq a (Star a)"

definition lits :: "string \<Rightarrow> re" where
  "lits w = foldr (\<lambda>c r. Seq (Chr c) r) w Eps"

definition seqs :: "re list \<Rightarrow> re" where
  "seqs rs = foldr Seq rs Eps"

text \<open>
  A matcher state is the character before the current position (\<open>None\<close> at the start
  of the text), the text from the current position on, and the groups captured so
  far. \<open>rmatch r st\<close> lists the states in which a match of \<open>r\<close> from \<open>st\<close> can end, in
  the order in which the backtracking matcher tries them: a greedy repetition tries
  one more iteration first, a lazy one tries to stop first. An iteration of a
  repetition has to consume a character (every repeated pattern of the script is a
  single character class).
\<close>

type_synonym caps = "(nat \<times> string) list"
type_synonym mstate = "char option \<times> string \<times> caps"

function rmatch :: "re \<Rightarrow> mstate \<Rightarrow> mstate list" where
  "rmatch (One P) (p, s, g) =
     (case s of [] \<Rightarrow> [] | c # cs \<Rightarrow> if P c then [(Some c, cs, g)] else [])"
| "rmatch Bol (p, s, g) =
     (if p = None \<or> p = Some nl then [(p, s, g)] else [])"
| "rmatch Eps (p, s, g) = [(p, s, g)]"
| "rmatch (Seq a b) (p, s, g) = concat (map (rmatch b) (rmatch a (p, s, g)))"
| "rmatch (Star a) (p, s, g) =
     concat (map (\<lambda>(p', s', g').
                    if length s' < length s then rmatch (Star a) (p', s', g') else [])
                 (rmatch a (p, s, g))) @ [(p, s, g)]"
| "rmatch (LazyStar a) (p, s, g) =
     (p, s, g) #
     concat (map (\<lambda>(p', s', g').
                    if length s' < length s then rmatch (LazyStar a) (p', s', g') else [])
                 (rmatch a (p, s, g)))"
| "rmatch (Opt a) (p, s, g) = rmatch a (p, s, g) @ [(p, s, g)]"
| "rmatch (Group n a) (p, s, g) =
     map (\<lambda>(p', s', g'). (p', s', (n, take (length s - length s') s) # g'))
         (rmatch a (p, s, g))"
  by pat_completeness auto
termination
  by (relation "measures [\<lambda>(r, p, s, g). size r, \<lambda>(r, p, s, g). length s]") auto

declare rmatch.simps [simp del]

text \<open>
  The scan of \<^verbatim>\<open>finditer\<close> and \<^verbatim>\<open>sub\<close>: at each position the first match in the
  matcher's order is taken and the scan goes on behind it; where the pattern does
  not match, the character is passed over. After an empty match the next match at
  the same position must not be empty (the flag \<open>adv\<close>).
\<close>

datatype piece = Text char | Match string caps

definition first_match :: "re \<Rightarrow> bool \<Rightarrow> char option \<Rightarrow> string \<Rightarrow> mstate option" where
  "first_match r adv p s =
     List.find (\<lambda>(p', s', g). if adv then length s' < length s else True)
       (rmatch r (p, s, []))"

function re_scan :: "re \<Rightarrow> bool \<Rightarrow> char option \<Rightarrow> string \<Rightarrow> piece list" where
  "re_scan r adv p s =
     (case first_match r adv p s of
        None \<Rightarrow> (case s of [] \<Rightarrow> [] | c # cs \<Rightarrow> Text c # re_scan r False (Some c) cs)
      | Some (p', s', g) \<Rightarrow>
          if length s' < length s
          then Match (take (length s - length s') s) g # re_scan r False p' s'
          else Match [] g # re_scan r True p s)"
  by pat_completeness auto
termination
proof (relation "measures [\<lambda>(r, adv, p, s). length s, \<lambda>(r, adv, p, s). if adv then 0 else 1]",
    goal_cases)
  case (4 r adv p s x2 p' y s' g)
  then show ?case
    by (cases adv) (auto simp: first_match_def find_Some_iff)
qed auto

declare re_scan.simps [simp del]

text \<open>\<^verbatim>\<open>r.finditer(s)\<close>: the matches, each with its text and its groups.\<close>

fun matches_of :: "piece list \<Rightarrow> (string \<times> caps) list" where
  "matches_of [] = []"
| "matches_of (Text c # ps) = matches_of ps"
| "matches_of (Match m g # ps) = (m, g) # matches_of ps"

definition re_finditer :: "re \<Rightarrow> string \<Rightarrow> (string \<times> caps) list" where
  "re_finditer r s = matches_of (re_scan r False None s)"

text \<open>\<^verbatim>\<open>m.group(n)\<close> for a group that took part in the match.\<close>

definition group :: "string \<times> caps \<Rightarrow> nat \<Rightarrow> string" where
  "group m n = (case map_of (snd m) n of None \<Rightarrow> [] | Some t \<Rightarrow> t)"

text \<open>
  \<^verbatim>\<open>r.sub(f, s)\<close> with a function \<open>f\<close>: the matches are replaced from left to right,
  and the first call of \<open>f\<close> that raises ends the substitution with its error.
\<close>

fun sub_pieces :: "(string \<times> caps \<Rightarrow> error + string) \<Rightarrow> piece list \<Rightarrow> error + string" where
  "sub_pieces f [] = Inr []"
| "sub_pieces f (Text c # ps) =
     (case sub_pieces f ps of Inl e \<Rightarrow> Inl e | Inr out \<Rightarrow> Inr (c # out))"
| "sub_pieces f (Match m g # ps) =
     (case f (m, g) of
        Inl e \<Rightarrow> Inl e
      | Inr t \<Rightarrow> (case sub_pieces f ps of Inl e \<Rightarrow> Inl e | Inr out \<Rightarrow> Inr (t @ out)))"

definition re_sub_fun :: "re \<Rightarrow> (string \<times> caps \<Rightarrow> error + string) \<Rightarrow> string \<Rightarrow> error + string" where
  "re_sub_fun r f s = sub_pieces f (re_scan r False None s)"

text \<open>\<^verbatim>\<open>r.sub(t, s)\<close> with a text \<open>t\<close> that has no backslash: every match becomes \<open>t\<close>.\<close>

fun fill_pieces :: "string \<Rightarrow> piece list \<Rightarrow> string" where
  "fill_pieces t [] = []"
| "fill_pieces t (Text c # ps) = c # fill_pieces t ps"
| "fill_pieces t (Match m g # ps) = t @ fill_pieces t ps"

definition re_sub_str :: "re \<Rightarrow> string \<Rightarrow> string \<Rightarrow> string" where
  "re_sub_str r t s = fill_pieces t (re_scan r False None s)"

text \<open>
  \<^verbatim>\<open>r.sub(t, s)\<close> with a replacement template \<open>t\<close>. The template is parsed before
  the scan, so a malformed template raises even when nothing matches. In a template
  a doubled backslash is one backslash, a backslash before one of the letters
  \<^verbatim>\<open>a b f n r t v\<close> is a control character, another ASCII letter behind a
  backslash is an error, a backslash before \<^verbatim>\<open>0\<close> or before three octal digits
  gives a character, other digits and \<^verbatim>\<open>g<n>\<close> behind a backslash refer to a group
  (group 0 is the whole match), and a backslash before any other character stays.
  All errors of the template parser are the one value \<open>TemplateError\<close>.
\<close>

datatype titem = TLit char | TGroup nat

definition is_oct :: "char \<Rightarrow> bool" where
  "is_oct c = (let n = (of_char c :: nat) in 48 \<le> n \<and> n \<le> 55)"

definition is_ascii_letter :: "char \<Rightarrow> bool" where
  "is_ascii_letter c =
     (let n = (of_char c :: nat) in (65 \<le> n \<and> n \<le> 90) \<or> (97 \<le> n \<and> n \<le> 122))"

definition oct_val :: "string \<Rightarrow> nat" where
  "oct_val ds = foldl (\<lambda>n c. 8 * n + digit_val c) 0 ds"

definition escape_char :: "char \<Rightarrow> char option" where
  "escape_char d =
     (if d = CHR ''a'' then Some (CHR 0x07) else if d = CHR ''b'' then Some (CHR 0x08)
      else if d = CHR ''f'' then Some (CHR 0x0C) else if d = CHR ''n'' then Some nl
      else if d = CHR ''r'' then Some (CHR 0x0D) else if d = CHR ''t'' then Some (CHR 0x09)
      else if d = CHR ''v'' then Some (CHR 0x0B) else if d = bs then Some bs
      else None)"

definition tcons :: "titem list \<Rightarrow> error + titem list \<Rightarrow> error + titem list" where
  "tcons xs r = (case r of Inl e \<Rightarrow> Inl e | Inr ys \<Rightarrow> Inr (xs @ ys))"

function parse_template :: "nat \<Rightarrow> string \<Rightarrow> error + titem list" where
  "parse_template n [] = Inr []"
| "parse_template n (c # cs) =
     (if c \<noteq> bs then tcons [TLit c] (parse_template n cs)
      else case cs of
        [] \<Rightarrow> Inl TemplateError
      | d # ds \<Rightarrow>
          if d = CHR ''g'' then
            (if take 1 ds \<noteq> ''<'' then Inl TemplateError
             else let name = takeWhile (\<lambda>x. x \<noteq> CHR ''>'') (drop 1 ds);
                      rest = dropWhile (\<lambda>x. x \<noteq> CHR ''>'') (drop 1 ds)
                  in if rest = [] \<or> name = [] \<or> \<not> list_all py_isdigit name
                        \<or> n < digits_val name
                     then Inl TemplateError
                     else tcons [TGroup (digits_val name)] (parse_template n (drop (length name + 2) ds)))
          else if d = CHR ''0'' then
            (let os = take 2 (takeWhile is_oct ds)
             in tcons [TLit (char_of (oct_val (d # os) mod 256))]
                  (parse_template n (drop (length os) ds)))
          else if py_isdigit d then
            (if list_all py_isdigit (take 1 ds) \<and> ds \<noteq> [] then
               (if is_oct d \<and> list_all is_oct (take 2 ds) \<and> 2 \<le> length ds then
                  (if 255 < oct_val (d # take 2 ds) then Inl TemplateError
                   else tcons [TLit (char_of (oct_val (d # take 2 ds)))]
                          (parse_template n (drop 2 ds)))
                else if n < digits_val (d # take 1 ds) then Inl TemplateError
                else tcons [TGroup (digits_val (d # take 1 ds))] (parse_template n (drop 1 ds)))
             else if n < digit_val d then Inl TemplateError
             else tcons [TGroup (digit_val d)] (parse_template n ds))
          else (case escape_char d of
                  Some x \<Rightarrow> tcons [TLit x] (parse_template n ds)
                | None \<Rightarrow>
                    if is_ascii_letter d then Inl TemplateError
                    else tcons [TLit bs, TLit d] (parse_template n ds)))"
  by pat_completeness auto
termination
  by (relation "measure (\<lambda>(n, s). length s)") auto

fun num_groups :: "re \<Rightarrow> nat" where
  "num_groups (Seq a b) = max (num_groups a) (num_groups b)"
| "num_groups (Star a) = num_groups a"
| "num_groups (LazyStar a) = num_groups a"
| "num_groups (Opt a) = num_groups a"
| "num_groups (Group n a) = max n (num_groups a)"
| "num_groups r = 0"

fun expand_template :: "titem list \<Rightarrow> string \<times> caps \<Rightarrow> string" where
  "expand_template [] m = []"
| "expand_template (TLit c # ts) m = c # expand_template ts m"
| "expand_template (TGroup k # ts) m =
     (if k = 0 then fst m else group m k) @ expand_template ts m"

fun expand_pieces :: "titem list \<Rightarrow> piece list \<Rightarrow> string" where
  "expand_pieces ts [] = []"
| "expand_pieces ts (Text c # ps) = c # expand_pieces ts ps"
| "expand_pieces ts (Match m g # ps) = expand_template ts (m, g) @ expand_pieces ts ps"

definition re_sub_template :: "re \<Rightarrow> string \<Rightarrow> string \<Rightarrow> error + string" where
  "re_sub_template r t s =
     (case parse_template (num_groups r) t of
        Inl e \<Rightarrow> Inl e
      | Inr ts \<Rightarrow> Inr (expand_pieces ts (re_scan r False None s)))"

section \<open>The patterns of the script\<close>

text \<open>\<^verbatim>\<open>\\tabularnewline\<close> (in \<^verbatim>\<open>getStretchRegexes\<close>).\<close>

definition tabularnewline_re :: re where
  "tabularnewline_re = lits (bs # ''tabularnewline'')"

text \<open>\<^verbatim>\<open>>\{(.*)\}.*p\{.*\\real\{(\d+(?:\.\d+)?)\}\}\<close> (in \<^verbatim>\<open>getColumnSizes\<close>).\<close>

definition width_re :: re where
  "width_re =
     seqs [lits ''>{'', Group 1 (Star Dot), lits ''}'', Star Dot, lits ''p{'', Star Dot,
           lits (bs # ''real{''),
           Group 2 (seqs [Plus Digit, Opt (seqs [Chr (CHR ''.''), Plus Digit])]),
           lits ''}}'']"

text \<open>\<^verbatim>\<open>\\end\{minipage\}\<close> and \<^verbatim>\<open>\\begin\{minipage\}.*\<close> (in \<^verbatim>\<open>setColumnFormat\<close>).\<close>

definition end_minipage :: string where
  "end_minipage = bs # ''end{minipage}''"

definition begin_minipage :: string where
  "begin_minipage = bs # ''begin{minipage}''"

definition end_minipage_re :: re where
  "end_minipage_re = lits end_minipage"

definition begin_minipage_re :: re where
  "begin_minipage_re = seqs [lits begin_minipage, Star Dot]"

text \<open>\<^verbatim>\<open>^\s*\n\<close> with \<^verbatim>\<open>re.MULTILINE\<close> (in \<^verbatim>\<open>deleteEmptyLines\<close>).\<close>

definition empty_line_re :: re where
  "empty_line_re = seqs [Bol, Star Space, Chr nl]"

text \<open>
  \<^verbatim>\<open>\\begin\{longtable\}.*?\\end\{longtable\}\<close> with \<^verbatim>\<open>re.DOTALL\<close>
  (in \<^verbatim>\<open>postProcessLatexTables\<close>).
\<close>

definition begin_longtable :: string where
  "begin_longtable = bs # ''begin{longtable}''"

definition end_longtable :: string where
  "end_longtable = bs # ''end{longtable}''"

definition longtable_re :: re where
  "longtable_re = seqs [lits begin_longtable, LazyStar DotAll, lits end_longtable]"

section \<open>The functions of the script\<close>

text \<open>
  \<^verbatim>\<open>getStretchRegexes\<close>: the template is the raw text
  \<^verbatim>\<open>\\tabularnewline\\addlinespace[{0}]\<close> with the spacing put in by \<^verbatim>\<open>format\<close>.
\<close>

definition getStretchRegexes :: "string \<Rightarrow> (re \<times> string) list" where
  "getStretchRegexes spacing =
     [(tabularnewline_re,
       [bs, bs] @ ''tabularnewline'' @ [bs, bs] @ ''addlinespace['' @ spacing @ '']'')]"

fun apply_regexes :: "(re \<times> string) list \<Rightarrow> string \<Rightarrow> error + string" where
  "apply_regexes [] substring = Inr substring"
| "apply_regexes ((reg, repl) # rs) substring =
     (case re_sub_template reg repl substring of
        Inl e \<Rightarrow> Inl e
      | Inr substring' \<Rightarrow> apply_regexes rs substring')"

definition setLatexSpacing :: "string \<Rightarrow> string \<Rightarrow> error + string" where
  "setLatexSpacing output spacing =
     (let startTag = bs # ''endhead'';
          endTag = bs # ''bottomrule'';
          start = py_find output startTag + int (length startTag);
          endpos = py_find output endTag;
          substring = py_slice output start endpos
      in case apply_regexes (getStretchRegexes spacing) substring of
           Inl e \<Rightarrow> Inl e
         | Inr substring' \<Rightarrow>
             Inr (py_slice output 0 start @ substring' @ py_slice_from output endpos))"

text \<open>
  The numbers of the script are the widths that \<^verbatim>\<open>float\<close> reads from the matched
  text, the column ratios and the margin of the configuration (integers or floats
  of the JSON file), and what \<^verbatim>\<open>sum\<close>, \<^verbatim>\<open>float\<close>, \<^verbatim>\<open>/\<close>, \<^verbatim>\<open>-\<close> and \<^verbatim>\<open>*\<close> make of them.
  They are values of a type \<open>'n\<close>, and these operations are the fields of \<open>arith\<close>;
  each of them but the reading of a text may raise (\<^verbatim>\<open>ZeroDivisionError\<close>,
  \<^verbatim>\<open>OverflowError\<close>). A float literal is the number read from its text.
\<close>

record 'n arith =
  float_of_text :: "string \<Rightarrow> 'n"
  py_sum :: "'n list \<Rightarrow> error + 'n"
  py_float :: "'n \<Rightarrow> error + 'n"
  py_truediv :: "'n \<Rightarrow> 'n \<Rightarrow> error + 'n"
  py_sub :: "'n \<Rightarrow> 'n \<Rightarrow> error + 'n"
  py_mul :: "'n \<Rightarrow> 'n \<Rightarrow> error + 'n"

text \<open>A list comprehension whose expression may raise: the first error ends it.\<close>

fun map_err :: "('a \<Rightarrow> error + 'b) \<Rightarrow> 'a list \<Rightarrow> error + 'b list" where
  "map_err f [] = Inr []"
| "map_err f (x # xs) =
     (case f x of
        Inl e \<Rightarrow> Inl e
      | Inr y \<Rightarrow> (case map_err f xs of Inl e \<Rightarrow> Inl e | Inr ys \<Rightarrow> Inr (y # ys)))"

text \<open>
  \<^verbatim>\<open>getColumnSizes\<close>. The column ratios are \<open>None\<close> when the caller passes
  \<^verbatim>\<open>None\<close>; \<^verbatim>\<open>if columnRatios\<close> holds for a list that is not empty. The last
  \<^verbatim>\<open>print\<close> evaluates \<^verbatim>\<open>sum(widths)\<close> once more before the function returns.
\<close>

definition endhead :: string where
  "endhead = bs # ''endhead''"

definition width_pattern :: string where
  "width_pattern =
     ''>'' @ bs # ''{(.*)'' @ bs # ''}.*p'' @ bs # ''{.*'' @ [bs, bs] @ ''real'' @ bs # ''{(''
       @ bs # ''d+(?:'' @ bs # ''.'' @ bs # ''d+)?)'' @ bs # ''}'' @ bs # ''}''"

definition truthy :: "'a list option \<Rightarrow> bool" where
  "truthy xs = (case xs of None \<Rightarrow> False | Some ys \<Rightarrow> ys \<noteq> [])"

definition getColumnSizes ::
  "'n arith \<Rightarrow> string \<Rightarrow> bool \<Rightarrow> 'n \<Rightarrow> 'n list option \<Rightarrow> error + ('n list \<times> string list)" where
  "getColumnSizes ar output scaleToOne scaleToFullMargin columnRatios =
     (let endTag = endhead;
          endpos = py_find output endTag
      in if endpos < 0 then Inr ([], [])
         else
           let part = py_slice output 0 endpos;
               ms = re_finditer width_re part;
               widths = map (\<lambda>m. float_of_text ar (group m 2)) ms;
               formats = map (\<lambda>m. group m 1) ms
           in if length widths = 0 then Inl (ValueError (''Regex failed '' @ width_pattern))
              else
                (case (if truthy columnRatios then
                        (case columnRatios of
                           None \<Rightarrow> Inr widths
                         | Some ratios \<Rightarrow>
                             if length ratios \<noteq> length widths then Inl AssertionError
                             else
                               (case py_sum ar ratios of
                                  Inl e \<Rightarrow> Inl e
                                | Inr totalWidth \<Rightarrow>
                                    map_err (\<lambda>c. case py_float ar totalWidth of
                                                    Inl e \<Rightarrow> Inl e
                                                  | Inr t \<Rightarrow> py_truediv ar c t) ratios))
                      else Inr widths) of
                  Inl e \<Rightarrow> Inl e
                | Inr widths1 \<Rightarrow>
                    (case (if scaleToOne \<or> truthy columnRatios then
                            (case py_sum ar widths1 of
                               Inl e \<Rightarrow> Inl e
                             | Inr totalWidth \<Rightarrow>
                                 (case py_sub ar (float_of_text ar ''1.0'') scaleToFullMargin of
                                    Inl e \<Rightarrow> Inl e
                                  | Inr d \<Rightarrow>
                                      (case py_truediv ar d totalWidth of
                                         Inl e \<Rightarrow> Inl e
                                       | Inr scale \<Rightarrow>
                                           map_err (\<lambda>w. py_mul ar w scale) widths1)))
                          else Inr widths1) of
                       Inl e \<Rightarrow> Inl e
                     | Inr widths2 \<Rightarrow>
                         (case py_sum ar widths2 of
                            Inl e \<Rightarrow> Inl e
                          | Inr tot \<Rightarrow> Inr (widths2, formats)))))"

definition setColumnFormat :: "string \<Rightarrow> 'n list \<Rightarrow> string list \<Rightarrow> string" where
  "setColumnFormat output widths formats =
     re_sub_str begin_minipage_re [] (re_sub_str end_minipage_re [] output)"

definition deleteEmptyLines :: "string \<Rightarrow> string" where
  "deleteEmptyLines output = re_sub_str empty_line_re [] output"

text \<open>
  The configuration of one group is a dictionary; the fields that
  \<^verbatim>\<open>postProcessLatexTables\<close> reads with \<^verbatim>\<open>config.get\<close> are \<open>None\<close> when the key is
  absent.
\<close>

record 'n config =
  scaleColumnsToFull :: "bool option"
  scaleColumnsToFullMargin :: "'n option"
  columnRatios :: "'n list option"
  rowSpacing :: "string option"

definition get_default :: "'a option \<Rightarrow> 'a \<Rightarrow> 'a" where
  "get_default v d = (case v of None \<Rightarrow> d | Some x \<Rightarrow> x)"

definition postProcessLatexTable ::
  "'n arith \<Rightarrow> 'n config \<Rightarrow> string \<times> caps \<Rightarrow> error + string" where
  "postProcessLatexTable ar cfg m =
     (let table = fst m
      in case getColumnSizes ar table (get_default (scaleColumnsToFull cfg) False)
                (get_default (scaleColumnsToFullMargin cfg) (float_of_text ar ''0.0''))
                (columnRatios cfg) of
           Inl e \<Rightarrow> Inl e
         | Inr (widths, formats) \<Rightarrow>
             (let table1 = setColumnFormat table widths formats
              in (case (if truthy (rowSpacing cfg)
                        then setLatexSpacing table1 (get_default (rowSpacing cfg) [])
                        else Inr table1) of
                    Inl e \<Rightarrow> Inl e
                  | Inr table2 \<Rightarrow> Inr (deleteEmptyLines table2))))"

definition postProcessLatexTables :: "'n arith \<Rightarrow> 'n config \<Rightarrow> string \<Rightarrow> error + string" where
  "postProcessLatexTables ar cfg output =
     re_sub_fun longtable_re (postProcessLatexTable ar cfg) output"

section \<open>The entry point\<close>

text \<open>
  The arguments of the command line, as \<^verbatim>\<open>argparse\<close> returns them.
\<close>

record args =
  data_dir :: string
  root_dir :: string
  config :: string
  parallel :: bool

text \<open>
  \<^verbatim>\<open>run\<close> works on the environment, the file system and the pandoc process. They
  are a state \<open>'w\<close> here, and the functions that act on them are the fields of
  \<open>env\<close>: \<^verbatim>\<open>setEnvironment\<close>, \<^verbatim>\<open>loadPandocDefault\<close>, \<^verbatim>\<open>convertTables\<close> (which runs
  pandoc and writes the files), the \<^verbatim>\<open>map\<close> of the \<^verbatim>\<open>ProcessPoolExecutor\<close>, and
  the reading of the configuration file with \<^verbatim>\<open>json.load\<close>.
\<close>

record ('c, 'd, 'w) env =
  setEnvironment :: "string \<Rightarrow> 'w \<Rightarrow> 'w"
  loadPandocDefault :: "string \<Rightarrow> 'w \<Rightarrow> error + 'd"
  convertTables :: "'c \<Rightarrow> string \<Rightarrow> string \<Rightarrow> 'd \<Rightarrow> 'w \<Rightarrow> error + 'w"
  executor_map :: "('c \<Rightarrow> 'w \<Rightarrow> error + 'w) \<Rightarrow> 'c list \<Rightarrow> 'w \<Rightarrow> error + 'w"
  json_load :: "string \<Rightarrow> 'w \<Rightarrow> error + 'c list"

text \<open>The \<^verbatim>\<open>for\<close> loop over the groups: the first failure ends it.\<close>

fun for_each :: "('c \<Rightarrow> 'w \<Rightarrow> error + 'w) \<Rightarrow> 'c list \<Rightarrow> 'w \<Rightarrow> error + 'w" where
  "for_each f [] w = Inr w"
| "for_each f (c # cs) w = (case f c w of Inl e \<Rightarrow> Inl e | Inr w' \<Rightarrow> for_each f cs w')"

definition run ::
  "('c, 'd, 'w) env \<Rightarrow> 'c list \<Rightarrow> string \<Rightarrow> string \<Rightarrow> bool \<Rightarrow> 'w \<Rightarrow> error + 'w" where
  "run e configs rootDir dataDir par w =
     (let w1 = setEnvironment e dataDir w
      in case loadPandocDefault e dataDir w1 of
           Inl err \<Rightarrow> Inl err
         | Inr pandocDefaults \<Rightarrow>
             if par
             then executor_map e (\<lambda>x. convertTables e x rootDir dataDir pandocDefaults)
                    configs w1
             else for_each (\<lambda>c. convertTables e c rootDir dataDir pandocDefaults) configs w1)"

text \<open>The block under \<^verbatim>\<open>if __name__ == "__main__"\<close>, behind the parsing of the arguments.\<close>

definition main :: "('c, 'd, 'w) env \<Rightarrow> args \<Rightarrow> 'w \<Rightarrow> error + 'w" where
  "main e a w =
     (case json_load e (config a) w of
        Inl err \<Rightarrow> Inl err
      | Inr cfgs \<Rightarrow> run e cfgs (root_dir a) (data_dir a) False w)"

section \<open>Notions of the claims\<close>

text \<open>
  The matches of the width pattern in the header region of a block (the text before
  the first \<^verbatim>\<open>\endhead\<close>); \<open>None\<close> when the marker is absent.
\<close>

definition header_matches :: "string \<Rightarrow> (string \<times> caps) list option" where
  "header_matches output =
     (case find_str endhead output of
        None \<Rightarrow> None
      | Some e \<Rightarrow> Some (re_finditer width_re (take e output)))"

text \<open>
  The table blocks of a text: a block starts at a marker \<^verbatim>\<open>\begin{longtable}\<close> and
  ends with the next marker \<^verbatim>\<open>\end{longtable}\<close> behind it. \<open>block_length s\<close> is the
  length of the block at the head of \<open>s\<close>. The text is read from left to right, a
  block is taken where one starts, and reading goes on behind it; every other
  character is a segment of its own.
\<close>

definition block_length :: "string \<Rightarrow> nat option" where
  "block_length s =
     (if prefix begin_longtable s then
        (case find_str end_longtable (drop (length begin_longtable) s) of
           None \<Rightarrow> None
         | Some i \<Rightarrow> Some (length begin_longtable + i + length end_longtable))
      else None)"

datatype segment = Plain char | Block string

function table_segments :: "string \<Rightarrow> segment list" where
  "table_segments s =
     (case block_length s of
        Some n \<Rightarrow> Block (take n s) # table_segments (drop n s)
      | None \<Rightarrow> (case s of [] \<Rightarrow> [] | c # cs \<Rightarrow> Plain c # table_segments cs))"
  by pat_completeness auto
termination
  by (relation "measure length")
    (auto simp: block_length_def begin_longtable_def split: if_splits option.splits
      dest!: prefix_length_le)

declare table_segments.simps [simp del]

fun segment_text :: "segment \<Rightarrow> string" where
  "segment_text (Plain c) = [c]"
| "segment_text (Block b) = b"

text \<open>
  The text put together from the segments, every block rewritten on its own by the
  function of the script and every other character kept; the first block that
  fails gives the error.
\<close>

fun rewrite_segments :: "'n arith \<Rightarrow> 'n config \<Rightarrow> segment list \<Rightarrow> error + string" where
  "rewrite_segments ar cfg [] = Inr []"
| "rewrite_segments ar cfg (Plain c # segs) =
     (case rewrite_segments ar cfg segs of Inl e \<Rightarrow> Inl e | Inr out \<Rightarrow> Inr (c # out))"
| "rewrite_segments ar cfg (Block b # segs) =
     (case postProcessLatexTable ar cfg (b, []) of
        Inl e \<Rightarrow> Inl e
      | Inr t \<Rightarrow>
          (case rewrite_segments ar cfg segs of Inl e \<Rightarrow> Inl e | Inr out \<Rightarrow> Inr (t @ out)))"

text \<open>
  The lines of a text that end with a newline (\<open>cur\<close> is the part of the current line
  read so far), and the lines that are empty or hold only whitespace.
\<close>

fun tlines :: "string \<Rightarrow> string \<Rightarrow> string list" where
  "tlines cur [] = []"
| "tlines cur (c # cs) = (if c = nl then cur # tlines [] cs else tlines (cur @ [c]) cs)"

definition terminated_lines :: "string \<Rightarrow> string list" where
  "terminated_lines s = tlines [] s"

definition blank :: "string \<Rightarrow> bool" where
  "blank l = list_all py_isspace l"

text \<open>
  The length of the longest start of a text that holds only whitespace and ends with
  a newline, when there is one.
\<close>

fun blank_prefix :: "string \<Rightarrow> nat option" where
  "blank_prefix [] = None"
| "blank_prefix (c # cs) =
     (if py_isspace c then
        (case blank_prefix cs of
           Some n \<Rightarrow> Some (Suc n)
         | None \<Rightarrow> if c = nl then Some 1 else None)
      else None)"


text \<open>
  The groups one after the other: each works on the state that the one before it
  has left, and none is run after a failure.
\<close>

definition in_order :: "('c \<Rightarrow> 'w \<Rightarrow> error + 'w) \<Rightarrow> 'c list \<Rightarrow> 'w \<Rightarrow> error + 'w" where
  "in_order f cs w = foldl (\<lambda>r c. case r of Inl e \<Rightarrow> Inl e | Inr w' \<Rightarrow> f c w') (Inr w) cs"



definition strip_blank :: "bool \<Rightarrow> char option \<Rightarrow> string \<Rightarrow> string" where
  "strip_blank adv p s = fill_pieces [] (re_scan empty_line_re adv p s)"

section \<open>Example texts\<close>

definition ex_block3 :: string where
  "ex_block3 =
     begin_longtable @ ''[]{'' @ CHR ''@'' # ''{}'' @ nl #
     ''>{l}p{'' @ bs # ''real{2}}'' @ nl #
     ''>{c}p{'' @ bs # ''real{1}}'' @ nl #
     ''>{r}p{'' @ bs # ''real{1}}'' @ CHR ''@'' # ''{}}'' @ nl #
     endhead @ nl # ''a & b & c'' @ nl # end_longtable"

definition ex_block0 :: string where
  "ex_block0 = begin_longtable @ ''[]{ll}'' @ nl # endhead @ nl # ''a & b'' @ nl # end_longtable"

definition ex_nohead :: string where
  "ex_nohead = begin_longtable @ ''[]{ll}'' @ nl # ''a & b'' @ nl # end_longtable"

definition ex_block_mini :: string where
  "ex_block_mini =
     begin_longtable @ ''[]{'' @ CHR ''@'' # ''{}'' @ nl #
     ''>{l}p{'' @ bs # ''real{1}}'' @ CHR ''@'' # ''{}}'' @ nl #
     endhead @ nl #
     begin_minipage @ ''[t]{x}'' @ nl #
     ''cell'' @ nl # end_minipage @ '' '' @ bs # ''tabularnewline'' @ nl #
     ''  '' @ nl # nl #
     bs # ''bottomrule'' @ nl # end_longtable"


definition ex_text :: string where
  "ex_text = ''Intro'' @ nl # nl # ex_block_mini @ nl # nl # ''Mid  '' @ nl # ex_nohead @ nl # ''  ''"

definition ex_block_mini_out :: string where
  "ex_block_mini_out =
     begin_longtable @ ''[]{'' @ CHR ''@'' # ''{}'' @ nl #
     ''>{l}p{'' @ bs # ''real{1}}'' @ CHR ''@'' # ''{}}'' @ nl #
     endhead @ nl #
     ''cell'' @ nl # '' '' @ bs # ''tabularnewline'' @ nl #
     bs # ''bottomrule'' @ nl # end_longtable"

definition ex_text_out :: string where
  "ex_text_out =
     ''Intro'' @ nl # nl # ex_block_mini_out @ nl # nl # ''Mid  '' @ nl # ex_nohead @ nl # ''  ''"

text \<open>
  An arithmetic to run the examples with: rational numbers without rounding, where
  only the division by zero raises. No theorem of a claim depends on it.
\<close>

definition decimal_value :: "string \<Rightarrow> rat" where
  "decimal_value t =
     (let ip = takeWhile (\<lambda>c. c \<noteq> CHR ''.'') t;
          fp = drop 1 (dropWhile (\<lambda>c. c \<noteq> CHR ''.'') t)
      in of_nat (digits_val ip) + of_nat (digits_val fp) / 10 ^ length fp)"

definition exact_arith :: "rat arith" where
  "exact_arith =
     \<lparr>float_of_text = decimal_value,
      py_sum = (\<lambda>xs. Inr (sum_list xs)),
      py_float = Inr,
      py_truediv = (\<lambda>a b. if b = 0 then Inl ZeroDivisionError else Inr (a / b)),
      py_sub = (\<lambda>a b. Inr (a - b)),
      py_mul = (\<lambda>a b. Inr (a * b))\<rparr>"

definition cfg0 :: "rat config" where
  "cfg0 = \<lparr>scaleColumnsToFull = None, scaleColumnsToFullMargin = None,
            columnRatios = None, rowSpacing = None\<rparr>"

text \<open>
  An environment to run the entry point with: the state is the list of what has
  been done, a group is its name, the group \<open>bad\<close> fails, and the process pool
  converts nothing.
\<close>

definition ex_env :: "(string, unit, string list) env" where
  "ex_env =
     \<lparr>setEnvironment = (\<lambda>d w. w @ [''env '' @ d]),
      loadPandocDefault = (\<lambda>d w. Inr ()),
      convertTables = (\<lambda>c r d u w. if c = ''bad'' then Inl (ExternalError c) else Inr (w @ [c])),
      executor_map = (\<lambda>f cs w. Inr w),
      json_load = (\<lambda>f w. if f = ''3.json'' then Inr [''g1'', ''g2'', ''g3'']
                            else Inr [''g1'', ''bad'', ''g3''])\<rparr>"

definition ex_args :: args where
  "ex_args = \<lparr>data_dir = ''d'', root_dir = ''r'', config = ''3.json'', parallel = True\<rparr>"

section \<open>Column sizes\<close>

lemma find_str_le: "find_str w s = Some i \<Longrightarrow> i + length w \<le> length s"
proof (induction s arbitrary: i)
  case Nil
  then show ?case by (simp split: if_splits)
next
  case (Cons c cs)
  show ?case
  proof (cases "prefix w (c # cs)")
    case True
    with Cons.prems show ?thesis by (auto dest: prefix_length_le)
  next
    case False
    with Cons.prems obtain j where "find_str w cs = Some j" "i = Suc j" by auto
    with Cons.IH show ?thesis by fastforce
  qed
qed

lemma py_index_nat: "i \<le> length s \<Longrightarrow> py_index s (int i) = i"
  by (simp add: py_index_def Let_def)

lemma py_slice_take: "i \<le> length s \<Longrightarrow> py_slice s 0 (int i) = take i s"
  using py_index_nat [of 0 s] by (simp add: py_slice_def py_index_nat)

lemma getColumnSizes_absent:
  "find_str endhead output = None \<Longrightarrow> getColumnSizes ar output sc m rs = Inr ([], [])"
  by (simp add: getColumnSizes_def py_find_def)

lemma header_region:
  assumes "header_matches output = Some ms"
  shows "\<exists>e. py_find output endhead = int e \<and> re_finditer width_re (py_slice output 0 (int e)) = ms"
proof -
  from assms obtain e where e: "find_str endhead output = Some e"
    and ms: "ms = re_finditer width_re (take e output)"
    by (auto simp: header_matches_def split: option.splits)
  from find_str_le [OF e] have "e \<le> length output" by simp
  then have "py_slice output 0 (int e) = take e output" by (rule py_slice_take)
  with e ms show ?thesis by (auto simp: py_find_def)
qed

lemma getColumnSizes_no_match:
  assumes "header_matches output = Some []"
  shows "getColumnSizes ar output sc m rs = Inl (ValueError (''Regex failed '' @ width_pattern))"
proof -
  from header_region [OF assms] obtain e where "py_find output endhead = int e"
    and "re_finditer width_re (py_slice output 0 (int e)) = []" by blast
  then show ?thesis by (simp add: getColumnSizes_def Let_def)
qed

lemma getColumnSizes_mismatch:
  assumes "header_matches output = Some ms" and "ms \<noteq> []"
    and "rs \<noteq> []" and "length rs \<noteq> length ms"
  shows "getColumnSizes ar output sc m (Some rs) = Inl AssertionError"
proof -
  from header_region [OF assms(1)] obtain e where "py_find output endhead = int e"
    and "re_finditer width_re (py_slice output 0 (int e)) = ms" by blast
  with assms(2-4) show ?thesis by (simp add: getColumnSizes_def Let_def truthy_def)
qed

text \<open>
  Claim C5, amended. When the marker \<^verbatim>\<open>\endhead\<close> is absent, \<^verbatim>\<open>getColumnSizes\<close>
  returns empty widths and formats without failing, also when column ratios are
  configured: the check of the ratios is not reached, and the block goes on through
  the removal of the wrappers, the optional spacing and the removal of blank lines.
\<close>

theorem C5_absent_marker_returns_empty:
  assumes "find_str endhead output = None"
  shows "getColumnSizes ar output sc m rs = Inr ([], [])
       \<and> postProcessLatexTable ar cfg (output, g) =
           (case (if truthy (rowSpacing cfg)
                  then setLatexSpacing (setColumnFormat output [] [])
                         (get_default (rowSpacing cfg) [])
                  else Inr (setColumnFormat output [] [])) of
              Inl e \<Rightarrow> Inl e
            | Inr t \<Rightarrow> Inr (deleteEmptyLines t))"
  using assms by (simp add: getColumnSizes_absent postProcessLatexTable_def setColumnFormat_def)

text \<open>The theorem at a concrete block.\<close>

theorem C5_witness:
  "find_str endhead ex_nohead = None
   \<and> getColumnSizes exact_arith ex_nohead False 0 (Some [1, 2]) = Inr ([], [])"
proof -
  have h: "find_str endhead ex_nohead = None" by code_simp
  show ?thesis
    using h C5_absent_marker_returns_empty [OF h, THEN conjunct1, of exact_arith False 0 "Some [1, 2]"]
    by simp
qed

text \<open>
  Claim C5 as stated fails in its second half: with column ratios configured, a
  block without \<^verbatim>\<open>\endhead\<close> is processed without any failure.
\<close>

theorem C5_counterexample:
  "find_str endhead ex_nohead = None
   \<and> postProcessLatexTables exact_arith (cfg0\<lparr>columnRatios := Some [1, 2]\<rparr>) ex_nohead
       = Inr ex_nohead"
  by code_simp

text \<open>
  Claim C7. \<^verbatim>\<open>setColumnFormat\<close> returns the same text for any widths and formats,
  and two configurations with the same row spacing that both rewrite a block give
  the same text, whatever their scaling flag, margin and ratios are.
\<close>

theorem C7_markup_independent_of_widths:
  "setColumnFormat output widths1 formats1 = setColumnFormat output widths2 formats2
   \<and> (postProcessLatexTable ar1 cfg1 (output, g1) = Inr out1
        \<and> postProcessLatexTable ar2 cfg2 (output, g2) = Inr out2
        \<and> rowSpacing cfg1 = rowSpacing cfg2 \<longrightarrow> out1 = out2)"
  by (auto simp: setColumnFormat_def postProcessLatexTable_def Let_def
      split: sum.splits prod.splits if_splits)

section \<open>The matcher\<close>

lemma rmatch_Eps_any: "rmatch Eps st = [st]"
  by (cases st) (simp add: rmatch.simps)

lemma concat_map_Eps: "concat (map (rmatch Eps) xs) = xs"
  by (induction xs) (simp_all add: rmatch_Eps_any)

lemma rmatch_Seq_Eps: "rmatch (Seq a Eps) (p, s, g) = rmatch a (p, s, g)"
  by (simp add: concat_map_Eps rmatch.simps(4))

lemma seqs_Cons: "seqs (r # rs) = Seq r (seqs rs)"
  by (simp add: seqs_def)

lemma seqs_Nil: "seqs [] = Eps"
  by (simp add: seqs_def)

lemma lits_Cons: "lits (c # w) = Seq (Chr c) (lits w)"
  by (simp add: lits_def)

lemma lits_Nil: "lits [] = Eps"
  by (simp add: lits_def)

lemma rmatch_Chr:
  "rmatch (Chr c) (p, s, g) = (case s of [] \<Rightarrow> [] | x # xs \<Rightarrow> if x = c then [(Some x, xs, g)] else [])"
  by (simp add: Chr_def rmatch.simps(1))

lemma rmatch_lits:
  "rmatch (lits w) (p, s, g) =
     (if prefix w s then [(if w = [] then p else Some (last w), drop (length w) s, g)] else [])"
proof (induction w arbitrary: p s)
  case Nil
  then show ?case by (simp add: lits_Nil rmatch.simps(3))
next
  case (Cons c w)
  show ?case
  proof (cases s)
    case Nil
    then show ?thesis by (simp add: lits_Cons rmatch_Chr rmatch.simps(4))
  next
    case (Cons x xs)
    then show ?thesis
      using Cons.IH [of "Some x" xs]
      by (cases w) (auto simp: lits_Cons rmatch_Chr rmatch.simps(4))
  qed
qed

lemma rmatch_length:
  "(p', s', g') \<in> set (rmatch r (p, s, g)) \<Longrightarrow> length s' \<le> length s"
proof (induction r "(p, s, g)" arbitrary: p s g p' s' g' rule: rmatch.induct)
  case (1 P p s g)
  then show ?case by (auto simp: rmatch.simps(1) split: list.splits if_splits)
next
  case (2 p s g)
  then show ?case by (auto simp: rmatch.simps(2) split: if_splits)
next
  case (3 p s g)
  then show ?case by (auto simp: rmatch.simps(3))
next
  case (7 a p s g)
  then show ?case by (auto simp: rmatch.simps(7))
next
  case (8 n a p s g)
  then show ?case by (auto simp: rmatch.simps(8))
next
  case (4 a b p s g)
  from 4(3) obtain q t h where m: "(q, t, h) \<in> set (rmatch a (p, s, g))"
    and e: "(p', s', g') \<in> set (rmatch b (q, t, h))"
    by (auto simp: rmatch.simps(4))
  from 4(1) [OF m] have "length t \<le> length s" .
  moreover from 4(2) [OF m e] have "length s' \<le> length t" .
  ultimately show ?case by simp
next
  case (5 a p s g)
  from 5(3) rmatch.simps(5) [of a p s g] consider "(p', s', g') = (p, s, g)"
    | q t h where "(q, t, h) \<in> set (rmatch a (p, s, g))" "length t < length s"
      "(p', s', g') \<in> set (rmatch (Star a) (q, t, h))"
    by (auto split: if_splits)
  then show ?case
  proof cases
    case 1
    then show ?thesis by simp
  next
    case 2
    from 5(2) [OF 2(1) refl refl 2(2) 2(3)] 2(2) show ?thesis by simp
  qed
next
  case (6 a p s g)
  from 6(3) rmatch.simps(6) [of a p s g] consider "(p', s', g') = (p, s, g)"
    | q t h where "(q, t, h) \<in> set (rmatch a (p, s, g))" "length t < length s"
      "(p', s', g') \<in> set (rmatch (LazyStar a) (q, t, h))"
    by (auto split: if_splits)
  then show ?case
  proof cases
    case 1
    then show ?thesis by simp
  next
    case 2
    from 6(2) [OF 2(1) refl refl 2(2) 2(3)] 2(2) show ?thesis by simp
  qed
qed

lemma find_all_first:
  "(\<And>x. x \<in> set xs \<Longrightarrow> Q x) \<Longrightarrow> List.find Q xs = (case xs of [] \<Rightarrow> None | x # _ \<Rightarrow> Some x)"
  by (cases xs) auto

lemma first_match_first:
  assumes "\<And>p' s' g'. (p', s', g') \<in> set (rmatch r (p, s, [])) \<Longrightarrow> length s' < length s"
  shows "first_match r adv p s = (case rmatch r (p, s, []) of [] \<Rightarrow> None | x # _ \<Rightarrow> Some x)"
  unfolding first_match_def
  by (rule find_all_first) (use assms in auto)


section \<open>Removal of the wrappers\<close>










section \<open>Removal of the end markers\<close>










section \<open>Removal of blank lines\<close>

lemma first_append:
  "(case xs @ ys of [] \<Rightarrow> None | x # _ \<Rightarrow> Some x) =
     (case xs of [] \<Rightarrow> (case ys of [] \<Rightarrow> None | y # _ \<Rightarrow> Some y) | x # _ \<Rightarrow> Some x)"
  by (cases xs) simp_all

lemma rmatch_Seq_Eps_any: "rmatch (Seq a Eps) st = rmatch a st"
proof -
  obtain p s g where "st = (p, s, g)" by (cases st) auto
  then show ?thesis by (simp add: rmatch_Seq_Eps)
qed

lemma rmatch_Seq_Eps_fun: "rmatch (Seq a Eps) = rmatch a"
  by (rule ext) (rule rmatch_Seq_Eps_any)

lemma rmatch_Star_step:
  "rmatch (Star (One P)) (p, c # cs, g) =
     (if P c then rmatch (Star (One P)) (Some c, cs, g) @ [(p, c # cs, g)] else [(p, c # cs, g)])"
  by (simp add: rmatch.simps(5) [of "One P" p "c # cs" g] rmatch.simps(1))

lemma rmatch_Star_Nil: "rmatch (Star (One P)) (p, [], g) = [(p, [], g)]"
  by (simp add: rmatch.simps(5) [of "One P" p "[]" g] rmatch.simps(1))

lemma space_then_newline:
  "(case concat (map (rmatch (Chr nl)) (rmatch (Star Space) (p, s, g))) of
      [] \<Rightarrow> None | x # _ \<Rightarrow> Some x) =
   map_option (\<lambda>n. (Some nl, drop n s, g)) (blank_prefix s)"
proof (induction s arbitrary: p)
  case Nil
  show ?case by (simp add: Space_def rmatch_Star_Nil rmatch_Chr)
next
  case (Cons c cs)
  define X where "X = concat (map (rmatch (Chr nl)) (rmatch (Star Space) (Some c, cs, g)))"
  have ih: "(case X of [] \<Rightarrow> None | x # _ \<Rightarrow> Some x) =
      map_option (\<lambda>n. (Some nl, drop n cs, g)) (blank_prefix cs)"
    unfolding X_def by (rule Cons)
  show ?case
  proof (cases "py_isspace c")
    case True
    have st: "concat (map (rmatch (Chr nl)) (rmatch (Star Space) (p, c # cs, g))) =
        X @ rmatch (Chr nl) (p, c # cs, g)"
      using True unfolding X_def by (simp add: Space_def rmatch_Star_step)
    show ?thesis
    proof (cases X)
      case Nil
      with ih have "blank_prefix cs = None" by simp
      with Nil True show ?thesis unfolding st by (simp add: rmatch_Chr)
    next
      case (Cons x xs)
      with ih obtain n where "blank_prefix cs = Some n" "x = (Some nl, drop n cs, g)"
        by (cases "blank_prefix cs") auto
      with Cons True show ?thesis unfolding st by simp
    qed
  next
    case False
    have "c \<noteq> nl" using False by (auto simp: py_isspace_def)
    then show ?thesis
      using False by (simp add: Space_def rmatch_Star_step rmatch_Chr)
  qed
qed

lemma blank_prefix_bounds: "blank_prefix s = Some n \<Longrightarrow> 0 < n \<and> n \<le> length s"
  by (induction s arbitrary: n) (auto split: if_splits option.splits)

lemma blank_prefix_shorter: "blank_prefix s = Some n \<Longrightarrow> length (drop n s) < length s"
  using blank_prefix_bounds [of s n] by (cases s) auto

lemma empty_line_first:
  "first_match empty_line_re adv p s =
     (if p = None \<or> p = Some nl
      then map_option (\<lambda>n. (Some nl, drop n s, [])) (blank_prefix s)
      else None)"
proof -
  have r: "rmatch empty_line_re (p, s, []) =
      (if p = None \<or> p = Some nl
       then concat (map (rmatch (Chr nl)) (rmatch (Star Space) (p, s, [])))
       else [])"
    by (cases p)
      (simp_all add: empty_line_re_def seqs_Cons seqs_Nil rmatch.simps(4) [of Bol]
        rmatch.simps(4) [of "Star Space"] rmatch.simps(2) rmatch_Seq_Eps_fun)
  have sh: "length s' < length s" if "(p', s', g') \<in> set (rmatch empty_line_re (p, s, []))"
    for p' s' g'
  proof -
    from that r obtain q t h where m: "(q, t, h) \<in> set (rmatch (Star Space) (p, s, []))"
      and e: "(p', s', g') \<in> set (rmatch (Chr nl) (q, t, h))"
      by (auto split: if_splits)
    from rmatch_length [OF m] have "length t \<le> length s" .
    moreover from e have "length s' < length t"
      by (auto simp: rmatch_Chr split: list.splits if_splits)
    ultimately show ?thesis by simp
  qed
  have "first_match empty_line_re adv p s =
      (case rmatch empty_line_re (p, s, []) of [] \<Rightarrow> None | x # _ \<Rightarrow> Some x)"
    by (rule first_match_first) (rule sh)
  then show ?thesis by (simp add: r space_then_newline)
qed

lemma strip_blank_match:
  assumes "p = None \<or> p = Some nl" and "blank_prefix s = Some n"
  shows "strip_blank adv p s = strip_blank False (Some nl) (drop n s)"
proof -
  from assms have fm: "first_match empty_line_re adv p s = Some (Some nl, drop n s, [])"
    by (auto simp: empty_line_first)
  from blank_prefix_shorter [OF assms(2)] have sh: "length (drop n s) < length s" .
  show ?thesis
    unfolding strip_blank_def
    by (subst re_scan.simps) (use sh in \<open>simp add: fm\<close>)
qed

lemma strip_blank_skip:
  assumes "\<not> (p = None \<or> p = Some nl) \<or> blank_prefix s = None"
  shows "strip_blank adv p s =
     (case s of [] \<Rightarrow> [] | c # cs \<Rightarrow> c # strip_blank False (Some c) cs)"
proof -
  from assms have fm: "first_match empty_line_re adv p s = None"
    by (auto simp: empty_line_first)
  show ?thesis
    unfolding strip_blank_def
    by (subst re_scan.simps) (simp add: fm split: list.splits)
qed

lemma strip_blank_lines:
  assumes "blank cur \<Longrightarrow> p = None \<or> p = Some nl \<or> blank_prefix s = None"
  shows "list_all (\<lambda>l. \<not> blank l) (tlines cur (strip_blank adv p s))"
  using assms
proof (induction "length s" arbitrary: s adv p cur rule: less_induct)
  case less
  show ?case
  proof (cases "(p = None \<or> p = Some nl) \<and> blank_prefix s \<noteq> None")
    case True
    then obtain n where n: "blank_prefix s = Some n" by auto
    from blank_prefix_shorter [OF n] have "length (drop n s) < length s" .
    from less.hyps [OF this, of cur "Some nl" False] strip_blank_match [OF _ n, of p adv] True
    show ?thesis by simp
  next
    case False
    then have sk: "strip_blank adv p s =
        (case s of [] \<Rightarrow> [] | c # cs \<Rightarrow> c # strip_blank False (Some c) cs)"
      by (intro strip_blank_skip) auto
    show ?thesis
    proof (cases s)
      case Nil
      with sk show ?thesis by simp
    next
      case (Cons c cs)
      show ?thesis
      proof (cases "c = nl")
        case True
        have "py_isspace nl" by (simp add: py_isspace_def)
        with Cons True have bp: "blank_prefix s \<noteq> None" by (auto split: option.splits)
        with False have "\<not> (p = None \<or> p = Some nl)" by simp
        with less.prems bp have nb: "\<not> blank cur" by auto
        have "list_all (\<lambda>l. \<not> blank l) (tlines [] (strip_blank False (Some nl) cs))"
          using less.hyps [of cs "[]" "Some nl" False] Cons by simp
        with nb sk Cons True show ?thesis by simp
      next
        case cnl: False
        have "list_all (\<lambda>l. \<not> blank l) (tlines (cur @ [c]) (strip_blank False (Some c) cs))"
        proof (rule less.hyps)
          show "length cs < length s" using Cons by simp
        next
          assume b: "blank (cur @ [c])"
          then have bc: "blank cur" and sp: "py_isspace c" by (simp_all add: blank_def)
          from less.prems [OF bc] False have "blank_prefix s = None" by auto
          with Cons sp cnl have "blank_prefix cs = None" by (auto split: option.splits if_splits)
          then show "Some c = None \<or> Some c = Some nl \<or> blank_prefix cs = None" by simp
        qed
        with sk Cons cnl show ?thesis by simp
      qed
    qed
  qed
qed

section \<open>The table blocks\<close>

lemma rmatch_Lazy_step:
  "rmatch (LazyStar DotAll) (p, c # cs, g) = (p, c # cs, g) # rmatch (LazyStar DotAll) (Some c, cs, g)"
  by (simp add: DotAll_def rmatch.simps(6) [of "One (\<lambda>x. True)" p "c # cs" g] rmatch.simps(1))

lemma rmatch_Lazy_Nil: "rmatch (LazyStar DotAll) (p, [], g) = [(p, [], g)]"
  by (simp add: DotAll_def rmatch.simps(6) [of "One (\<lambda>x. True)" p "[]" g] rmatch.simps(1))

lemma lazy_then_lits:
  assumes "w \<noteq> []"
  shows "(case concat (map (rmatch (lits w)) (rmatch (LazyStar DotAll) (p, s, g))) of
            [] \<Rightarrow> None | x # _ \<Rightarrow> Some x) =
         map_option (\<lambda>i. (Some (last w), drop (i + length w) s, g)) (find_str w s)"
proof (induction s arbitrary: p)
  case Nil
  with assms show ?case by (simp add: rmatch_Lazy_Nil rmatch_lits)
next
  case (Cons c cs)
  show ?case
  proof (cases "prefix w (c # cs)")
    case True
    with assms show ?thesis by (simp add: rmatch_Lazy_step rmatch_lits)
  next
    case False
    with assms Cons [of "Some c"] show ?thesis
      by (simp add: rmatch_Lazy_step rmatch_lits option.map_comp comp_def)
  qed
qed

lemma longtable_first:
  "first_match longtable_re adv p s =
     map_option (\<lambda>n. (Some (CHR ''}''), drop n s, [])) (block_length s)"
proof -
  have w: "end_longtable \<noteq> []" "last end_longtable = CHR ''}''"
    "last begin_longtable = CHR ''}''" "begin_longtable \<noteq> []"
    by (simp_all add: end_longtable_def begin_longtable_def)
  have r: "rmatch longtable_re (p, s, []) =
      (if prefix begin_longtable s
       then concat (map (rmatch (lits end_longtable))
              (rmatch (LazyStar DotAll) (Some (CHR ''}''), drop (length begin_longtable) s, [])))
       else [])"
    using w
    by (simp add: longtable_re_def seqs_Cons seqs_Nil rmatch.simps(4) [of "lits begin_longtable"]
        rmatch.simps(4) [of "LazyStar DotAll"] rmatch_Seq_Eps_fun rmatch_lits)
  have sh: "length s' < length s" if "(p', s', g') \<in> set (rmatch longtable_re (p, s, []))"
    for p' s' g'
  proof -
    from that r have pre: "prefix begin_longtable s" by (auto split: if_splits)
    from that r pre obtain q t h
      where m: "(q, t, h) \<in> set (rmatch (LazyStar DotAll)
          (Some (CHR ''}''), drop (length begin_longtable) s, []))"
        and e: "(p', s', g') \<in> set (rmatch (lits end_longtable) (q, t, h))"
      by auto
    from rmatch_length [OF m] have "length t \<le> length s - length begin_longtable" by simp
    moreover from rmatch_length [OF e] have "length s' \<le> length t" .
    moreover from pre have "length begin_longtable \<le> length s" by (rule prefix_length_le)
    moreover have "length begin_longtable = 17" by (simp add: begin_longtable_def)
    ultimately show ?thesis by linarith
  qed
  have "first_match longtable_re adv p s =
      (case rmatch longtable_re (p, s, []) of [] \<Rightarrow> None | x # _ \<Rightarrow> Some x)"
    by (rule first_match_first) (rule sh)
  then show ?thesis
    using w
    by (simp add: r lazy_then_lits block_length_def option.map_comp comp_def ac_simps
        split: option.splits)
qed

lemma block_length_bounds:
  "block_length s = Some n \<Longrightarrow> 0 < n \<and> n \<le> length s"
proof -
  assume a: "block_length s = Some n"
  then obtain i where pre: "prefix begin_longtable s"
    and f: "find_str end_longtable (drop (length begin_longtable) s) = Some i"
    and n: "n = length begin_longtable + i + length end_longtable"
    by (auto simp: block_length_def split: if_splits option.splits)
  from find_str_le [OF f] have "i + length end_longtable \<le> length s - length begin_longtable"
    by simp
  moreover from pre have "length begin_longtable \<le> length s" by (rule prefix_length_le)
  moreover have "length begin_longtable = 17" by (simp add: begin_longtable_def)
  ultimately show ?thesis using n by linarith
qed

lemma block_length_shorter: "block_length s = Some n \<Longrightarrow> length (drop n s) < length s"
proof -
  assume "block_length s = Some n"
  from block_length_bounds [OF this] have "0 < n" "n \<le> length s" by simp_all
  then show ?thesis by simp
qed

lemma scan_longtable:
  "sub_pieces (postProcessLatexTable ar cfg) (re_scan longtable_re adv p s) =
     rewrite_segments ar cfg (table_segments s)"
proof (induction "length s" arbitrary: s adv p rule: less_induct)
  case less
  show ?case
  proof (cases "block_length s")
    case None
    show ?thesis
    proof (cases s)
      case Nil
      with None show ?thesis
        by (subst re_scan.simps, subst table_segments.simps) (simp add: longtable_first)
    next
      case (Cons c cs)
      with less [of cs False "Some c"] None show ?thesis
        by (subst re_scan.simps, subst table_segments.simps) (simp add: longtable_first)
    qed
  next
    case (Some n)
    from block_length_bounds [OF Some] have b: "0 < n" "n \<le> length s" by simp_all
    then have sh: "length (drop n s) < length s" by simp
    from b have tk: "take (length s - (length s - n)) s = take n s" by simp
    from less [OF sh, of False "Some (CHR ''}'')"] Some sh tk show ?thesis
      by (subst re_scan.simps, subst table_segments.simps)
        (simp add: longtable_first split: sum.splits)
  qed
qed

lemma segments_concat: "concat (map segment_text (table_segments s)) = s"
proof (induction "length s" arbitrary: s rule: less_induct)
  case less
  show ?case
  proof (cases "block_length s")
    case None
    show ?thesis
    proof (cases s)
      case Nil
      with None show ?thesis by (subst table_segments.simps) simp
    next
      case (Cons c cs)
      with less [of cs] None show ?thesis by (subst table_segments.simps) simp
    qed
  next
    case (Some n)
    from block_length_shorter [OF Some] have "length (drop n s) < length s" .
    from less [OF this] Some show ?thesis by (subst table_segments.simps) simp
  qed
qed

lemma find_str_take:
  "find_str w t = Some i \<Longrightarrow> find_str w (take (i + length w) t) = Some i"
proof (induction t arbitrary: i)
  case Nil
  then show ?case by (simp split: if_splits)
next
  case (Cons c cs)
  show ?case
  proof (cases "prefix w (c # cs)")
    case True
    with Cons.prems have i: "i = 0" by simp
    from True have "take (length w) (c # cs) = w" by (metis append_eq_conv_conj prefixE)
    with i True show ?thesis
      by (cases "take (length w) (c # cs)") (auto simp: prefix_def)
  next
    case False
    with Cons.prems obtain j where j: "find_str w cs = Some j" "i = Suc j" by auto
    have "prefix w (c # cs)" if "prefix w (c # take (j + length w) cs)"
    proof -
      from that obtain z where "c # take (j + length w) cs = w @ z" by (auto simp: prefix_def)
      then have "c # cs = w @ (z @ drop (j + length w) cs)"
        by (metis append_Cons append_assoc append_take_drop_id)
      then show ?thesis by (rule prefixI)
    qed
    with False have np: "\<not> prefix w (c # take (j + length w) cs)" by blast
    from Cons.IH [OF j(1)] j np show ?thesis by simp
  qed
qed

lemma block_is_block:
  assumes "block_length s = Some n"
  shows "block_length (take n s) = Some (length (take n s))"
proof -
  from assms obtain i where pre: "prefix begin_longtable s"
    and f: "find_str end_longtable (drop (length begin_longtable) s) = Some i"
    and n: "n = length begin_longtable + i + length end_longtable"
    by (auto simp: block_length_def split: if_splits option.splits)
  from block_length_bounds [OF assms] have le: "n \<le> length s" by simp
  from pre obtain z where "s = begin_longtable @ z" by (auto simp: prefix_def)
  then have "take n s = begin_longtable @ take (i + length end_longtable) z"
    using n by simp
  then have p2: "prefix begin_longtable (take n s)" by (rule prefixI)
  from le have lt: "length (take n s) = n" by simp
  have d: "drop (length begin_longtable) (take n s) =
      take (i + length end_longtable) (drop (length begin_longtable) s)"
    using n by (simp add: drop_take add.assoc)
  have "block_length (take n s) = Some (length begin_longtable + i + length end_longtable)"
    unfolding block_length_def
    by (simp only: p2 d find_str_take [OF f] if_True option.case)
  with lt n show ?thesis by simp
qed

lemma segments_blocks:
  "list_all (\<lambda>seg. case seg of Plain c \<Rightarrow> True | Block b \<Rightarrow> block_length b = Some (length b))
     (table_segments s)"
proof (induction "length s" arbitrary: s rule: less_induct)
  case less
  show ?case
  proof (cases "block_length s")
    case None
    show ?thesis
    proof (cases s)
      case Nil
      with None show ?thesis by (subst table_segments.simps) simp
    next
      case (Cons c cs)
      with less [of cs] None show ?thesis by (subst table_segments.simps) simp
    qed
  next
    case (Some n)
    from block_length_shorter [OF Some] have "length (drop n s) < length s" .
    from less [OF this] Some block_is_block [OF Some] show ?thesis
      by (subst table_segments.simps) simp
  qed
qed

lemma rewrite_segments_fails:
  "Block b \<in> set segs \<Longrightarrow> isl (postProcessLatexTable ar cfg (b, []))
     \<Longrightarrow> isl (rewrite_segments ar cfg segs)"
  by (induction ar cfg segs rule: rewrite_segments.induct) (auto split: sum.splits)

lemma job_fails:
  "Block b \<in> set (table_segments doc) \<Longrightarrow> isl (postProcessLatexTable ar cfg (b, []))
     \<Longrightarrow> isl (postProcessLatexTables ar cfg doc)"
  using scan_longtable [of ar cfg False None doc] rewrite_segments_fails [of b _ ar cfg]
  by (simp add: postProcessLatexTables_def re_sub_fun_def)

section \<open>Claims on the rewritten text\<close>

text \<open>
  Claim C1. \<^verbatim>\<open>postProcessLatexTables\<close> reads the text as its table blocks (each from a
  marker \<^verbatim>\<open>\begin{longtable}\<close> to the next marker \<^verbatim>\<open>\end{longtable}\<close>, from left to
  right) and the characters between them, which make up the whole text. Its result
  is the text with every character outside the blocks kept as it is and every block
  replaced by what the rewriting of that block alone returns; it fails when the
  rewriting of a block fails.
\<close>

theorem C1_text_outside_blocks_unchanged:
  "postProcessLatexTables ar cfg output = rewrite_segments ar cfg (table_segments output)
   \<and> concat (map segment_text (table_segments output)) = output
   \<and> list_all (\<lambda>seg. case seg of Plain c \<Rightarrow> True | Block b \<Rightarrow> block_length b = Some (length b))
        (table_segments output)"
  using scan_longtable [of ar cfg False None "output"] segments_concat [of "output"]
    segments_blocks [of "output"]
  by (simp add: postProcessLatexTables_def re_sub_fun_def)

text \<open>The theorem at a text with two blocks and blank lines around them.\<close>

theorem C1_witness:
  "table_segments ex_text =
     map Plain (''Intro'' @ [nl, nl]) @ Block ex_block_mini #
     map Plain ([nl, nl] @ ''Mid  '' @ [nl]) @ Block ex_nohead # map Plain (nl # ''  '')
   \<and> postProcessLatexTables exact_arith cfg0 ex_text = Inr ex_text_out"
proof -
  have s: "table_segments ex_text =
     map Plain (''Intro'' @ [nl, nl]) @ Block ex_block_mini #
     map Plain ([nl, nl] @ ''Mid  '' @ [nl]) @ Block ex_nohead # map Plain (nl # ''  '')"
    by code_simp
  have r: "rewrite_segments exact_arith cfg0 (map Plain (''Intro'' @ [nl, nl]) @ Block ex_block_mini #
     map Plain ([nl, nl] @ ''Mid  '' @ [nl]) @ Block ex_nohead # map Plain (nl # ''  ''))
     = Inr ex_text_out"
    by code_simp
  have p: "postProcessLatexTables exact_arith cfg0 ex_text =
      rewrite_segments exact_arith cfg0 (table_segments ex_text)"
    using C1_text_outside_blocks_unchanged [of exact_arith cfg0 ex_text] by (rule conjunct1)
  show ?thesis unfolding p s r by simp
qed

text \<open>
  Claim C2. When the marker \<^verbatim>\<open>\endhead\<close> is present and the text before its first
  occurrence holds no match of the width pattern, \<^verbatim>\<open>getColumnSizes\<close> raises the
  \<^verbatim>\<open>ValueError\<close>, whatever the scaling flag, the margin and the ratios are; no empty
  result is returned. The rewriting of that block fails with this error, and so
  does the rewriting of every text that has the block among its table blocks.
\<close>

theorem C2_zero_declarations_raise:
  assumes "header_matches output = Some []"
  shows "getColumnSizes ar output sc m rs = Inl (ValueError (''Regex failed '' @ width_pattern))
       \<and> postProcessLatexTable ar cfg (output, g) =
           Inl (ValueError (''Regex failed '' @ width_pattern))
       \<and> (Block output \<in> set (table_segments doc) \<longrightarrow> isl (postProcessLatexTables ar cfg doc))"
proof -
  have a: "getColumnSizes ar output sc m rs = Inl (ValueError (''Regex failed '' @ width_pattern))"
    for sc m rs
    by (rule getColumnSizes_no_match [OF assms])
  then have b: "postProcessLatexTable ar cfg (output, g) =
      Inl (ValueError (''Regex failed '' @ width_pattern))" for g
    by (simp add: postProcessLatexTable_def)
  from b [of "[]"] have "isl (postProcessLatexTable ar cfg (output, []))" by simp
  with a b show ?thesis by (auto intro: job_fails)
qed

text \<open>The theorem at a block with no column declaration.\<close>

theorem C2_witness:
  "header_matches ex_block0 = Some []
   \<and> getColumnSizes exact_arith ex_block0 True 0 None =
       Inl (ValueError (''Regex failed '' @ width_pattern))
   \<and> postProcessLatexTable exact_arith cfg0 (ex_block0, []) =
       Inl (ValueError (''Regex failed '' @ width_pattern))
   \<and> isl (postProcessLatexTables exact_arith cfg0 ex_block0)"
proof -
  have h: "header_matches ex_block0 = Some []" by code_simp
  have t: "table_segments ex_block0 = [Block ex_block0]" by code_simp
  show ?thesis
    using h C2_zero_declarations_raise [OF h, of exact_arith True 0 None cfg0 "[]" ex_block0] by (simp add: t)
qed

text \<open>
  Claim C6, amended. For a list of column ratios that is not empty and whose length
  differs from the number of extracted widths (at least one), \<^verbatim>\<open>getColumnSizes\<close>
  fails with the \<^verbatim>\<open>AssertionError\<close>; with these ratios configured the rewriting of
  the block fails with it, and so does the rewriting of every text that has the
  block among its table blocks.
\<close>

theorem C6_ratio_count_mismatch:
  assumes "header_matches output = Some ms" and "ms \<noteq> []"
    and "rs \<noteq> []" and "length rs \<noteq> length ms"
  shows "getColumnSizes ar output sc m (Some rs) = Inl AssertionError
       \<and> (columnRatios cfg = Some rs \<longrightarrow>
            postProcessLatexTable ar cfg (output, g) = Inl AssertionError
            \<and> (Block output \<in> set (table_segments doc)
                 \<longrightarrow> isl (postProcessLatexTables ar cfg doc)))"
proof -
  have a: "getColumnSizes ar output sc m (Some rs) = Inl AssertionError" for sc m
    by (rule getColumnSizes_mismatch [OF assms])
  then have b: "postProcessLatexTable ar cfg (output, g) = Inl AssertionError"
    if "columnRatios cfg = Some rs" for g
    using that by (simp add: postProcessLatexTable_def)
  have "isl (postProcessLatexTable ar cfg (output, []))" if "columnRatios cfg = Some rs"
    using b [OF that, of "[]"] by simp
  with a b show ?thesis by (auto intro: job_fails)
qed

text \<open>The theorem at a block of three columns with two ratios.\<close>

theorem C6_witness:
  "getColumnSizes exact_arith ex_block3 False 0 (Some [1, 1]) = Inl AssertionError
   \<and> postProcessLatexTable exact_arith (cfg0\<lparr>columnRatios := Some [1, 1]\<rparr>) (ex_block3, [])
       = Inl AssertionError
   \<and> isl (postProcessLatexTables exact_arith (cfg0\<lparr>columnRatios := Some [1, 1]\<rparr>) ex_block3)"
proof -
  have h: "header_matches ex_block3 =
      Some [(''>{l}p{'' @ bs # ''real{2}}'', [(2, ''2''), (1, ''l'')]),
            (''>{c}p{'' @ bs # ''real{1}}'', [(2, ''1''), (1, ''c'')]),
            (''>{r}p{'' @ bs # ''real{1}}'', [(2, ''1''), (1, ''r'')])]"
    by code_simp
  have t: "table_segments ex_block3 = [Block ex_block3]" by code_simp
  show ?thesis
    using C6_ratio_count_mismatch [OF h, of "[1, 1]" exact_arith False 0
        "cfg0\<lparr>columnRatios := Some [1, 1]\<rparr>" "[]" ex_block3]
    by (simp add: t)
qed

text \<open>
  Claim C6 as stated fails for the empty list of ratios: it counts as no ratios,
  and the declared widths are returned.
\<close>

theorem C6_counterexample:
  "getColumnSizes exact_arith ex_block3 False 0 (Some []) = Inr ([2, 1, 1], [''l'', ''c'', ''r''])"
  by code_simp

text \<open>The theorem at a block with wrappers, with and without ratios.\<close>

theorem C7_witness:
  "postProcessLatexTable exact_arith cfg0 (ex_block_mini, []) = Inr ex_block_mini_out
   \<and> postProcessLatexTable exact_arith
        (cfg0\<lparr>scaleColumnsToFull := Some True, columnRatios := Some [3]\<rparr>)
        (ex_block_mini, []) = Inr ex_block_mini_out
   \<and> setColumnFormat ex_block_mini ([] :: rat list) [] =
       setColumnFormat ex_block_mini [1 :: rat] [''l'']"
proof -
  have a: "postProcessLatexTable exact_arith cfg0 (ex_block_mini, []) = Inr ex_block_mini_out"
    by code_simp
  have b: "postProcessLatexTable exact_arith
        (cfg0\<lparr>scaleColumnsToFull := Some True, columnRatios := Some [3]\<rparr>)
        (ex_block_mini, []) = Inr ex_block_mini_out"
    by code_simp
  from C7_markup_independent_of_widths [of ex_block_mini "[] :: rat list" "[]" "[1 :: rat]"
      "[''l'']" exact_arith cfg0 "[]" ex_block_mini_out exact_arith
      "cfg0\<lparr>scaleColumnsToFull := Some True, columnRatios := Some [3]\<rparr>" "[]"
      ex_block_mini_out] a b
  show ?thesis by simp
qed




text \<open>
  Claim C9, amended. In the text that \<^verbatim>\<open>deleteEmptyLines\<close> returns, and so in every
  rewritten table block, no line that ends with a newline is empty or holds only
  whitespace. The lines outside the table blocks are not touched, and neither is
  the rest of a block behind its last newline.
\<close>

theorem C9_no_blank_line_in_block:
  "list_all (\<lambda>l. \<not> blank l) (terminated_lines (deleteEmptyLines output))
   \<and> (postProcessLatexTable ar cfg (table, g) = Inr out
        \<longrightarrow> list_all (\<lambda>l. \<not> blank l) (terminated_lines out))"
proof -
  have a: "list_all (\<lambda>l. \<not> blank l) (terminated_lines (deleteEmptyLines t))" for t
    unfolding terminated_lines_def deleteEmptyLines_def re_sub_str_def
    using strip_blank_lines [of "[]" None t False]
    by (simp add: strip_blank_def)
  have b: "\<exists>t. out = deleteEmptyLines t" if "postProcessLatexTable ar cfg (table, g) = Inr out"
    using that
    by (auto simp: postProcessLatexTable_def Let_def split: sum.splits prod.splits if_splits)
  from a b show ?thesis by blast
qed

text \<open>The theorem at a block with blank lines.\<close>

theorem C9_witness:
  "postProcessLatexTable exact_arith cfg0 (ex_block_mini, []) = Inr ex_block_mini_out
   \<and> list_all (\<lambda>l. \<not> blank l) (terminated_lines ex_block_mini_out)"
proof -
  have h: "postProcessLatexTable exact_arith cfg0 (ex_block_mini, []) = Inr ex_block_mini_out"
    by code_simp
  show ?thesis
    using h C9_no_blank_line_in_block [of ex_block_mini exact_arith cfg0 ex_block_mini "[]"
        ex_block_mini_out]
    by simp
qed

text \<open>
  Claim C9 as stated fails for the text around the blocks: its blank lines are in
  the final text.
\<close>

theorem C9_counterexample:
  "postProcessLatexTables exact_arith cfg0 ex_text = Inr ex_text_out
   \<and> list_ex blank (terminated_lines ex_text_out)"
  by code_simp

section \<open>Claim on the entry point\<close>

lemma in_order_failed:
  "foldl (\<lambda>r c. case r of Inl e \<Rightarrow> Inl e | Inr w' \<Rightarrow> f c w') (Inl e) cs = Inl e"
  by (induction cs) simp_all

lemma for_each_in_order: "for_each f cs w = in_order f cs w"
proof (induction cs arbitrary: w)
  case Nil
  show ?case by (simp add: in_order_def)
next
  case (Cons c cs)
  show ?case
  proof (cases "f c w")
    case (Inl e)
    then show ?thesis by (simp add: in_order_def in_order_failed)
  next
    case (Inr w')
    with Cons [of w'] show ?thesis by (simp add: in_order_def)
  qed
qed

text \<open>
  Claim C10. The entry point calls \<^verbatim>\<open>run\<close> with \<^verbatim>\<open>parallel=False\<close>: what it does is
  the same for both values of the flag \<^verbatim>\<open>--parallel\<close>, does not depend on the
  process pool, and is the conversion of the groups one after the other in the
  order of the configuration file, each on the state that the one before it has
  left, up to the first that fails.
\<close>

theorem C10_always_sequential:
  "main e (a\<lparr>parallel := b\<rparr>) w = main e a w
   \<and> main (e\<lparr>executor_map := pm\<rparr>) a w = main e a w
   \<and> main e a w =
       (case json_load e (config a) w of
          Inl err \<Rightarrow> Inl err
        | Inr cfgs \<Rightarrow>
            (case loadPandocDefault e (data_dir a) (setEnvironment e (data_dir a) w) of
               Inl err \<Rightarrow> Inl err
             | Inr d \<Rightarrow>
                 in_order (\<lambda>c. convertTables e c (root_dir a) (data_dir a) d) cfgs
                   (setEnvironment e (data_dir a) w)))"
  by (simp add: main_def run_def Let_def for_each_in_order cong: sum.case_cong)

text \<open>
  The theorem at an environment that records what is done: with the flag set the
  three groups are converted in their order, not by the process pool, and a group
  that fails ends the run.
\<close>

theorem C10_witness:
  "parallel ex_args
   \<and> main ex_env ex_args [] = Inr [''env d'', ''g1'', ''g2'', ''g3'']
   \<and> main ex_env (ex_args\<lparr>parallel := False\<rparr>) [] = Inr [''env d'', ''g1'', ''g2'', ''g3'']
   \<and> main ex_env (ex_args\<lparr>config := ''x.json''\<rparr>) [] = Inl (ExternalError ''bad'')"
proof -
  have a: "main ex_env ex_args [] = Inr [''env d'', ''g1'', ''g2'', ''g3'']"
    using C10_always_sequential [where e = ex_env and a = ex_args and b = True and w = "[]"]
    by (simp add: ex_env_def ex_args_def in_order_def)
  have b: "main ex_env (ex_args\<lparr>config := ''x.json''\<rparr>) [] = Inl (ExternalError ''bad'')"
    by (simp add: main_def run_def ex_env_def ex_args_def)
  have c: "main ex_env (ex_args\<lparr>parallel := False\<rparr>) [] = main ex_env ex_args []"
    using C10_always_sequential [where e = ex_env and a = ex_args and b = False and w = "[]"]
    by simp
  from a b c show ?thesis by (simp add: ex_args_def)
qed

end
